theory Spec2Isabelle
  imports Main
begin

section \<open>Scope\<close>

text \<open>
  The handler of \<^verbatim>\<open>POST /scrape\<close> of the server: for each template of the request it loads
  the start URL, extracts one record per item of the page, follows the link to the next
  page until there is none or the limit is reached, and writes the records of the template
  to a CSV file. The embedding follows the handler statement by statement. It leaves out
  what decides nothing: the choice of the user agent, the blocking of images and fonts, the
  delay between two pages, the console output and the closing of the tab; the browser is
  taken to be running. A CSV file is the list of its records; how a value is written to it
  belongs to the CSV writer.
\<close>

section \<open>The rendered document\<close>

text \<open>
  The extraction routine of the handler runs inside the rendered page and reads the DOM.
  A document is its root element; an element carries an identity (the object identity of
  the DOM node), a tag name, its attributes and its child nodes. Attribute names are taken
  as the parser stores them (lower case).
\<close>

datatype node =
    Element nat string "(string \<times> string) list" "node list"
  | TextNode string

text \<open>A value of a record, or the href read from a link: a string, or JavaScript's null.\<close>

datatype jsval = Str string | Null

text \<open>The exceptions the handler can meet.\<close>

datatype exn = SyntaxError | TypeError | NavigationError

text \<open>
  The three kinds of list the item selection produces. Only \<^verbatim>\<open>NodeList\<close> and
  \<^verbatim>\<open>Array\<close> have a \<^verbatim>\<open>forEach\<close> method.
\<close>

datatype 'a collection = NodeList "'a list" | HTMLCollection "'a list" | Array "'a list"

fun textContent :: "node \<Rightarrow> string" where
  "textContent (TextNode s) = s"
| "textContent (Element i tg as cs) = concat (map textContent cs)"

text \<open>All elements of a subtree, the root first, in document order.\<close>

fun elements :: "node \<Rightarrow> node list" where
  "elements (TextNode s) = []"
| "elements (Element i tg as cs) = Element i tg as cs # concat (map elements cs)"

text \<open>\<^verbatim>\<open>element.querySelectorAll('*')\<close>: the elements below the root, the root left out.\<close>

definition descendants :: "node \<Rightarrow> node list" where
  "descendants n = (case n of TextNode s \<Rightarrow> [] | Element i tg as cs \<Rightarrow> concat (map elements cs))"

text \<open>A string with its letters \<^verbatim>\<open>A\<close> to \<^verbatim>\<open>Z\<close> in lower case.\<close>

definition lowerCase :: "string \<Rightarrow> string" where
  "lowerCase s =
     map (\<lambda>c. if 65 \<le> (of_char c :: nat) \<and> (of_char c :: nat) \<le> 90
               then char_of ((of_char c :: nat) + 32) else c) s"

text \<open>
  \<^verbatim>\<open>el.getAttribute(name)\<close>: in an HTML document the name is put in lower case before it
  is looked up; an attribute that is not there gives \<^verbatim>\<open>null\<close>.
\<close>

definition getAttribute :: "node \<Rightarrow> string \<Rightarrow> jsval" where
  "getAttribute n a =
     (case n of
        TextNode s \<Rightarrow> Null
      | Element i tg as cs \<Rightarrow>
          (case map_of as (lowerCase a) of None \<Rightarrow> Null | Some v \<Rightarrow> Str v))"

text \<open>
  White space. A character of a string is one of the 256 code points from 0; among them
  \<^verbatim>\<open>String.prototype.trim\<close> strips tab, line feed, vertical tab, form feed, carriage
  return, space and the no-break space (the white space and line terminators beyond 255
  are not characters of the model). Class names are separated by the same characters
  without the vertical tab and the no-break space.
\<close>

definition isTrimSpace :: "char \<Rightarrow> bool" where
  "isTrimSpace c =
     (c \<in> set [CHR 0x09, CHR 0x0A, CHR 0x0B, CHR 0x0C, CHR 0x0D, CHR '' '', CHR 0xA0])"

definition isTokenSpace :: "char \<Rightarrow> bool" where
  "isTokenSpace c = (c \<in> set [CHR 0x09, CHR 0x0A, CHR 0x0C, CHR 0x0D, CHR '' ''])"

definition trim :: "string \<Rightarrow> string" where
  "trim s = rev (dropWhile isTrimSpace (rev (dropWhile isTrimSpace s)))"

function tokens :: "string \<Rightarrow> string list" where
  "tokens [] = []"
| "tokens (c # cs) =
     (if isTokenSpace c then tokens cs
      else (c # takeWhile (\<lambda>d. \<not> isTokenSpace d) cs) # tokens (dropWhile (\<lambda>d. \<not> isTokenSpace d) cs))"
  by pat_completeness auto
termination
  by (relation "measure length") (auto simp: length_dropWhile_le less_Suc_eq_le)

definition classList :: "node \<Rightarrow> string list" where
  "classList n = (case getAttribute n ''class'' of Null \<Rightarrow> [] | Str v \<Rightarrow> tokens v)"

text \<open>An element carries the classes \<open>cs\<close> when each of them is in its class list.\<close>

definition carries :: "string list \<Rightarrow> node \<Rightarrow> bool" where
  "carries cs n = list_all (\<lambda>c. c \<in> set (classList n)) cs"

text \<open>
  \<^verbatim>\<open>getElementsByClassName(names)\<close>: the elements that carry every class of \<open>names\<close>; none
  when \<open>names\<close> holds no class. On an element the search is below it; on the document it
  is over every element.
\<close>

definition getElementsByClassName :: "node \<Rightarrow> string \<Rightarrow> node list" where
  "getElementsByClassName root names =
     (if tokens names = [] then [] else filter (carries (tokens names)) (descendants root))"

definition document_getElementsByClassName :: "node \<Rightarrow> string \<Rightarrow> node list" where
  "document_getElementsByClassName doc names =
     (if tokens names = [] then [] else filter (carries (tokens names)) (elements doc))"

section \<open>The collaborators\<close>

text \<open>
  What the handler takes from outside: the selector engine of the browser, its regular
  expressions, its URL parser and the web itself.
  \<^item> \<open>css sel\<close> is \<open>None\<close> when \<open>sel\<close> is not a selector (the query raises a SyntaxError),
    else the test of one element, given the document and the scope of the query;
  \<^item> \<open>RegExp p flags\<close> is \<open>None\<close> when \<open>p\<close> is not a pattern (SyntaxError), else
    \<^verbatim>\<open>regex.test\<close>;
  \<^item> \<open>URL ref base\<close> is \<^verbatim>\<open>new URL(ref, base).href\<close>, \<open>None\<close> when it raises a TypeError;
  \<^item> \<open>hostname u\<close> is \<^verbatim>\<open>new URL(u).hostname\<close>;
  \<^item> \<open>goto u\<close> is the page that \<^verbatim>\<open>page.goto(u)\<close> loads, \<open>None\<close> when the navigation fails;
    a URL loads the same page each time during one request.
\<close>

record page =
  documentElement :: node
  baseURI :: string

record env =
  css :: "string \<Rightarrow> (node \<Rightarrow> node \<Rightarrow> node \<Rightarrow> bool) option"
  RegExp :: "string \<Rightarrow> string \<Rightarrow> (string \<Rightarrow> bool) option"
  URL :: "string \<Rightarrow> string \<Rightarrow> string option"
  hostname :: "string \<Rightarrow> string option"
  goto :: "string \<Rightarrow> page option"

definition querySelector :: "env \<Rightarrow> node \<Rightarrow> node \<Rightarrow> string \<Rightarrow> exn + node option" where
  "querySelector e doc root sel =
     (case css e sel of
        None \<Rightarrow> Inl SyntaxError
      | Some m \<Rightarrow> Inr (find (m doc root) (descendants root)))"

definition document_querySelectorAll :: "env \<Rightarrow> node \<Rightarrow> string \<Rightarrow> exn + node list" where
  "document_querySelectorAll e doc sel =
     (case css e sel of
        None \<Rightarrow> Inl SyntaxError
      | Some m \<Rightarrow> Inr (filter (m doc doc) (elements doc)))"

definition document_querySelector :: "env \<Rightarrow> node \<Rightarrow> string \<Rightarrow> exn + node option" where
  "document_querySelector e doc sel =
     (case css e sel of
        None \<Rightarrow> Inl SyntaxError
      | Some m \<Rightarrow> Inr (find (m doc doc) (elements doc)))"

section \<open>Templates\<close>

text \<open>
  A template as the request body gives it. What the handler guards with \<^verbatim>\<open>||\<close> or
  \<^verbatim>\<open>&&\<close>, or what the specification speaks of as missing, is optional; \<^verbatim>\<open>fields\<close> is the object in
  the order \<^verbatim>\<open>for ... in\<close> walks it. The names \<^verbatim>\<open>type\<close>, \<^verbatim>\<open>selector\<close>, \<^verbatim>\<open>method\<close>,
  \<^verbatim>\<open>attribute\<close> and \<^verbatim>\<open>fields\<close> of the source carry a prefix here.
\<close>

record fieldInfo =
  ftype :: string
  fselector :: string
  fmethod :: "string option"
  fattribute :: string

record nextPageInfo =
  nselector :: string
  nmethod :: "string option"

record template =
  itemSelector :: "string option"
  itemSelectorMethod :: "string option"
  tfields :: "(string \<times> fieldInfo) list option"
  nextPage :: "nextPageInfo option"
  paginationLimit :: "int option"

text \<open>\<^verbatim>\<open>m || 'css'\<close>: a missing method and the empty string both give \<^verbatim>\<open>'css'\<close>.\<close>

definition orCss :: "string option \<Rightarrow> string" where
  "orCss m = (case m of None \<Rightarrow> ''css'' | Some s \<Rightarrow> (if s = [] then ''css'' else s))"

section \<open>Field extraction\<close>

text \<open>
  The element that \<^verbatim>\<open>extractText\<close> and \<^verbatim>\<open>extractAttribute\<close> look for: both run the same
  chain of tests on the method. \<^verbatim>\<open>selector.replace('.', '')\<close> removes the first dot.
\<close>

definition findEl :: "env \<Rightarrow> node \<Rightarrow> node \<Rightarrow> string \<Rightarrow> string \<Rightarrow> exn + node option" where
  "findEl e doc element selector method =
     (if method = ''css'' then querySelector e doc element selector
      else if method = ''class'' then
        (case getElementsByClassName element (remove1 CHR ''.'' selector) of
           [] \<Rightarrow> Inr None
         | el # rest \<Rightarrow> Inr (Some el))
      else if method = ''id'' then querySelector e doc element (CHR ''#'' # remove1 CHR ''#'' selector)
      else if method = ''regex'' then
        (case RegExp e selector ''i'' of
           None \<Rightarrow> Inl SyntaxError
         | Some regex \<Rightarrow> Inr (find (\<lambda>el. regex (trim (textContent el))) (descendants element)))
      else Inr None)"

definition extractText :: "env \<Rightarrow> node \<Rightarrow> node \<Rightarrow> string \<Rightarrow> string \<Rightarrow> string" where
  "extractText e doc element selector method =
     (case findEl e doc element selector method of
        Inl error \<Rightarrow> []
      | Inr None \<Rightarrow> []
      | Inr (Some el) \<Rightarrow> trim (textContent el))"

definition extractAttribute :: "env \<Rightarrow> node \<Rightarrow> node \<Rightarrow> string \<Rightarrow> string \<Rightarrow> string \<Rightarrow> jsval" where
  "extractAttribute e doc element selector attribute method =
     (case findEl e doc element selector method of
        Inl error \<Rightarrow> Str []
      | Inr None \<Rightarrow> Str []
      | Inr (Some el) \<Rightarrow> getAttribute el attribute)"

section \<open>One page: item selection and record building\<close>

text \<open>
  The item selection of the routine passed to \<^verbatim>\<open>page.evaluate\<close>. It always asks the
  document, never an element. A template without \<^verbatim>\<open>itemSelector\<close> passes
  \<^verbatim>\<open>undefined\<close>: the selector engine reads it as the text \<^verbatim>\<open>undefined\<close>,
  \<^verbatim>\<open>undefined.replace\<close> raises a TypeError, and \<^verbatim>\<open>new RegExp(undefined, 'i')\<close> is the
  empty pattern.
\<close>

definition selectItems :: "env \<Rightarrow> node \<Rightarrow> template \<Rightarrow> exn + node collection" where
  "selectItems e doc t =
     (if orCss (itemSelectorMethod t) = ''css'' then
        (case document_querySelectorAll e doc
                (case itemSelector t of None \<Rightarrow> ''undefined'' | Some s \<Rightarrow> s) of
           Inl x \<Rightarrow> Inl x
         | Inr els \<Rightarrow> Inr (NodeList els))
      else if orCss (itemSelectorMethod t) = ''class'' then
        (case itemSelector t of
           None \<Rightarrow> Inl TypeError
         | Some s \<Rightarrow> Inr (HTMLCollection (document_getElementsByClassName doc (remove1 CHR ''.'' s))))
      else if orCss (itemSelectorMethod t) = ''id'' then
        (case itemSelector t of
           None \<Rightarrow> Inl TypeError
         | Some s \<Rightarrow>
             (case document_querySelector e doc (CHR ''#'' # remove1 CHR ''#'' s) of
                Inl x \<Rightarrow> Inl x
              | Inr None \<Rightarrow> Inr (Array [])
              | Inr (Some el) \<Rightarrow> Inr (Array [el])))
      else if orCss (itemSelectorMethod t) = ''regex'' then
        (case RegExp e (case itemSelector t of None \<Rightarrow> [] | Some s \<Rightarrow> s) ''i'' of
           None \<Rightarrow> Inl SyntaxError
         | Some regex \<Rightarrow> Inr (Array (filter (\<lambda>el. regex (trim (textContent el))) (elements doc))))
      else Inr (Array []))"

type_synonym itemData = "(string \<times> jsval) list"

text \<open>\<^verbatim>\<open>itemData[field] = value\<close>: a known key keeps its place, a new one goes last.\<close>

fun setProp :: "itemData \<Rightarrow> string \<Rightarrow> jsval \<Rightarrow> itemData" where
  "setProp [] k v = [(k, v)]"
| "setProp (p # ps) k v = (if fst p = k then (k, v) # ps else p # setProp ps k v)"

definition fieldValue :: "env \<Rightarrow> node \<Rightarrow> node \<Rightarrow> fieldInfo \<Rightarrow> jsval" where
  "fieldValue e doc item fieldInfo =
     (if ftype fieldInfo = ''text'' then
        Str (extractText e doc item (fselector fieldInfo) (orCss (fmethod fieldInfo)))
      else if ftype fieldInfo = ''attribute'' then
        extractAttribute e doc item (fselector fieldInfo) (fattribute fieldInfo) (orCss (fmethod fieldInfo))
      else Str [])"

text \<open>The body of \<^verbatim>\<open>items.forEach\<close>; \<^verbatim>\<open>for (field in undefined)\<close> runs no iteration.\<close>

definition buildItem :: "env \<Rightarrow> node \<Rightarrow> template \<Rightarrow> node \<Rightarrow> itemData" where
  "buildItem e doc t item =
     foldl (\<lambda>itemData (field, fieldInfo). setProp itemData field (fieldValue e doc item fieldInfo))
       [] (case tfields t of None \<Rightarrow> [] | Some fs \<Rightarrow> fs)"

text \<open>
  The routine passed to \<^verbatim>\<open>page.evaluate\<close>: the records of one page. An
  \<^verbatim>\<open>HTMLCollection\<close> has no \<^verbatim>\<open>forEach\<close>, so the call on it raises a TypeError.
\<close>

definition evaluate :: "env \<Rightarrow> node \<Rightarrow> template \<Rightarrow> exn + itemData list" where
  "evaluate e doc t =
     (case selectItems e doc t of
        Inl x \<Rightarrow> Inl x
      | Inr (NodeList items) \<Rightarrow> Inr (map (buildItem e doc t) items)
      | Inr (HTMLCollection items) \<Rightarrow> Inl TypeError
      | Inr (Array items) \<Rightarrow> Inr (map (buildItem e doc t) items))"

section \<open>The next page\<close>

text \<open>
  \<^verbatim>\<open>page.$(sel) !== null\<close>, then \<^verbatim>\<open>page.$eval(sel, el => el.getAttribute('href'))\<close>: both
  are the document's \<^verbatim>\<open>querySelector\<close>, so both see the same first element.
\<close>

definition existsAndHref :: "env \<Rightarrow> page \<Rightarrow> string \<Rightarrow> exn + bool \<times> jsval" where
  "existsAndHref e pg sel =
     (case document_querySelector e (documentElement pg) sel of
        Inl x \<Rightarrow> Inl x
      | Inr None \<Rightarrow> Inr (False, Str [])
      | Inr (Some el) \<Rightarrow> Inr (True, getAttribute el ''href''))"

text \<open>
  The \<^verbatim>\<open>href\<close> property of an anchor: empty without the attribute, else the attribute
  resolved against the document's base URL, or the attribute as written when that fails.
\<close>

definition hrefProperty :: "env \<Rightarrow> page \<Rightarrow> node \<Rightarrow> string" where
  "hrefProperty e pg a =
     (case getAttribute a ''href'' of
        Null \<Rightarrow> []
      | Str h \<Rightarrow> (case URL e h (baseURI pg) of None \<Rightarrow> h | Some u \<Rightarrow> u))"

text \<open>The two variables \<^verbatim>\<open>nextPageExists\<close> and \<^verbatim>\<open>nextPageHref\<close> after the chain of tests.\<close>

definition nextPageLookup :: "env \<Rightarrow> page \<Rightarrow> nextPageInfo \<Rightarrow> exn + bool \<times> jsval" where
  "nextPageLookup e pg np =
     (if orCss (nmethod np) = ''css'' then existsAndHref e pg (nselector np)
      else if orCss (nmethod np) = ''class'' then
        existsAndHref e pg (CHR ''.'' # remove1 CHR ''.'' (nselector np))
      else if orCss (nmethod np) = ''id'' then
        existsAndHref e pg (CHR ''#'' # remove1 CHR ''#'' (nselector np))
      else if orCss (nmethod np) = ''regex'' then
        (case document_querySelectorAll e (documentElement pg) ''a'' of
           Inl x \<Rightarrow> Inl x
         | Inr anchors \<Rightarrow>
             (case RegExp e (nselector np) ''i'' of
                None \<Rightarrow> Inl SyntaxError
              | Some regex \<Rightarrow>
                  (case find (\<lambda>link. regex (snd link))
                          (map (\<lambda>a. (hrefProperty e pg a, trim (textContent a))) anchors) of
                     None \<Rightarrow> Inr (False, Str [])
                   | Some nextLink \<Rightarrow> Inr (True, Str (fst nextLink)))))
      else Inr (False, Str []))"

text \<open>
  The check for the next page: \<open>Inr None\<close> when \<^verbatim>\<open>hasNextPage\<close> becomes false, \<open>Inr (Some u)\<close>
  when the crawl goes on at \<open>u\<close>, \<open>Inl\<close> when a query or \<^verbatim>\<open>new URL\<close> raises.
\<close>

definition checkNextPage :: "env \<Rightarrow> template \<Rightarrow> page \<Rightarrow> string \<Rightarrow> exn + string option" where
  "checkNextPage e t pg currentPageUrl =
     (case nextPage t of
        None \<Rightarrow> Inr None
      | Some np \<Rightarrow>
          (if nselector np = [] then Inr None
           else
             (case nextPageLookup e pg np of
                Inl x \<Rightarrow> Inl x
              | Inr (nextPageExists, Null) \<Rightarrow> Inr None
              | Inr (nextPageExists, Str nextPageHref) \<Rightarrow>
                  (if nextPageExists \<and> nextPageHref \<noteq> [] then
                     (case URL e nextPageHref currentPageUrl of
                        None \<Rightarrow> Inl TypeError
                      | Some u \<Rightarrow> Inr (Some u))
                   else Inr None))))"

section \<open>The pages of one template\<close>

text \<open>
  The state of the loop over the pages of one template: the URLs handed to
  \<^verbatim>\<open>page.goto\<close> (the handler logs each one), the records of each page (it logs their number)
  and \<^verbatim>\<open>aggregatedData\<close>.
\<close>

record crawl =
  visited :: "string list"
  batches :: "itemData list list"
  aggregatedData :: "itemData list"

definition visit :: "crawl \<Rightarrow> string \<Rightarrow> crawl" where
  "visit st u = st\<lparr>visited := visited st @ [u]\<rparr>"

definition collect :: "crawl \<Rightarrow> itemData list \<Rightarrow> crawl" where
  "collect st scrapedData =
     st\<lparr>batches := batches st @ [scrapedData], aggregatedData := aggregatedData st @ scrapedData\<rparr>"

text \<open>
  \<^verbatim>\<open>paginationLimit = template.paginationLimit || null\<close>, then
  \<^verbatim>\<open>paginationLimit && currentPage >= paginationLimit\<close>: a limit of 0 is no limit.
\<close>

definition limitReached :: "template \<Rightarrow> int \<Rightarrow> bool" where
  "limitReached t currentPage =
     (case paginationLimit t of None \<Rightarrow> False | Some l \<Rightarrow> l \<noteq> 0 \<and> l \<le> currentPage)"

text \<open>
  The \<^verbatim>\<open>while (hasNextPage)\<close> loop. It may run for ever (a next link that leads back), so
  its result is optional; a result is the exception that ended it, if any, and the state.
\<close>

partial_function (option) scrapeLoop ::
  "env \<Rightarrow> template \<Rightarrow> string \<Rightarrow> int \<Rightarrow> crawl \<Rightarrow> (exn option \<times> crawl) option" where
  "scrapeLoop e t currentPageUrl currentPage st =
     (case goto e currentPageUrl of
        None \<Rightarrow> Some (Some NavigationError, visit st currentPageUrl)
      | Some pg \<Rightarrow>
          (case evaluate e (documentElement pg) t of
             Inl x \<Rightarrow> Some (Some x, visit st currentPageUrl)
           | Inr scrapedData \<Rightarrow>
               (if limitReached t currentPage then
                  Some (None, collect (visit st currentPageUrl) scrapedData)
                else
                  (case checkNextPage e t pg currentPageUrl of
                     Inl x \<Rightarrow> Some (Some x, collect (visit st currentPageUrl) scrapedData)
                   | Inr None \<Rightarrow> Some (None, collect (visit st currentPageUrl) scrapedData)
                   | Inr (Some u) \<Rightarrow>
                       scrapeLoop e t u (currentPage + 1)
                         (collect (visit st currentPageUrl) scrapedData)))))"

declare scrapeLoop.simps [code]

definition scrapeTemplate :: "env \<Rightarrow> template \<Rightarrow> string \<Rightarrow> (exn option \<times> crawl) option" where
  "scrapeTemplate e t url =
     scrapeLoop e t url 1 \<lparr>visited = [], batches = [], aggregatedData = []\<rparr>"

section \<open>The handler of \<^verbatim>\<open>POST /scrape\<close>\<close>

record request =
  url :: "string option"
  templates :: "(string \<times> template) list option"

text \<open>
  The answers of the handler: 200 \<^verbatim>\<open>Scraping completed successfully.\<close>, 400
  \<^verbatim>\<open>URL and templates are required.\<close>, 500 \<^verbatim>\<open>Scraping failed.\<close>, and no answer at all
  when \<^verbatim>\<open>new URL(url)\<close> raises before the \<^verbatim>\<open>try\<close> block.
\<close>

datatype response = ScrapingCompleted | UrlAndTemplatesRequired | ScrapingFailed | Unhandled

text \<open>
  What a request leaves behind: the answer, the CSV files written (domain, template name,
  records) and the URLs navigated to, in order.
\<close>

record outcome =
  response :: response
  files :: "(string \<times> string \<times> itemData list) list"
  navigations :: "string list"

definition normalizeDomain :: "string \<Rightarrow> string" where
  "normalizeDomain domain = (if take 4 domain = ''www.'' then drop 4 domain else domain)"

text \<open>\<^verbatim>\<open>for (let templateName in templates)\<close>, with the CSV written after each template.\<close>

fun scrapeTemplates ::
  "env \<Rightarrow> string \<Rightarrow> string \<Rightarrow> (string \<times> template) list \<Rightarrow> outcome \<Rightarrow> outcome option" where
  "scrapeTemplates e u domain [] out = Some (out\<lparr>response := ScrapingCompleted\<rparr>)"
| "scrapeTemplates e u domain ((templateName, t) # rest) out =
     (case scrapeTemplate e t u of
        None \<Rightarrow> None
      | Some (Some x, st) \<Rightarrow>
          Some (out\<lparr>response := ScrapingFailed, navigations := navigations out @ visited st\<rparr>)
      | Some (None, st) \<Rightarrow>
          scrapeTemplates e u domain rest
            (out\<lparr>files := (if aggregatedData st \<noteq> [] then
                              files out @ [(domain, templateName, aggregatedData st)]
                            else files out),
                 navigations := navigations out @ visited st\<rparr>))"

definition scrape :: "env \<Rightarrow> request \<Rightarrow> outcome option" where
  "scrape e req =
     (case url req of
        None \<Rightarrow> Some \<lparr>response = UrlAndTemplatesRequired, files = [], navigations = []\<rparr>
      | Some u \<Rightarrow>
          (if u = [] then Some \<lparr>response = UrlAndTemplatesRequired, files = [], navigations = []\<rparr>
           else
             (case templates req of
                None \<Rightarrow> Some \<lparr>response = UrlAndTemplatesRequired, files = [], navigations = []\<rparr>
              | Some ts \<Rightarrow>
                  (case hostname e u of
                     None \<Rightarrow> Some \<lparr>response = Unhandled, files = [], navigations = []\<rparr>
                   | Some h \<Rightarrow>
                       scrapeTemplates e u (normalizeDomain h) ts
                         \<lparr>response = ScrapingCompleted, files = [], navigations = []\<rparr>))))"

section \<open>A test double of the collaborators\<close>

text \<open>
  A small environment to run the handler on: a selector engine that knows a tag name,
  \<^verbatim>\<open>.class\<close> and \<^verbatim>\<open>#id\<close>; patterns that are plain text, looked for anywhere in the subject
  (without regard to case under the flag \<^verbatim>\<open>i\<close>), a lone \<^verbatim>\<open>(\<close> being no pattern; URLs
  that are absolute \<^verbatim>\<open>https\<close> ones or paths from the root of the base; and a site of two
  pages.
\<close>

definition tagName :: "node \<Rightarrow> string" where
  "tagName n = (case n of TextNode s \<Rightarrow> [] | Element i tg as cs \<Rightarrow> tg)"

definition testCss :: "string \<Rightarrow> (node \<Rightarrow> node \<Rightarrow> node \<Rightarrow> bool) option" where
  "testCss sel =
     (case sel of
        [] \<Rightarrow> None
      | c # cs \<Rightarrow>
          (if c = CHR ''.'' then Some (\<lambda>doc scope el. carries [cs] el)
           else if c = CHR ''#'' then Some (\<lambda>doc scope el. getAttribute el ''id'' = Str cs)
           else Some (\<lambda>doc scope el. tagName el = sel)))"

fun contains :: "string \<Rightarrow> string \<Rightarrow> bool" where
  "contains p [] = (p = [])"
| "contains p (c # cs) = (take (length p) (c # cs) = p \<or> contains p cs)"

definition testRegExp :: "string \<Rightarrow> string \<Rightarrow> (string \<Rightarrow> bool) option" where
  "testRegExp p flags =
     (if p = ''('' then None
      else if flags = ''i'' then Some (\<lambda>s. contains (lowerCase p) (lowerCase s))
      else Some (\<lambda>s. contains p s))"

definition testURL :: "string \<Rightarrow> string \<Rightarrow> string option" where
  "testURL ref base =
     (if take 8 ref = ''https://'' \<and> 8 < length ref then Some ref
      else if take 1 ref = ''/'' then
        Some (take 8 base @ takeWhile (\<lambda>c. c \<noteq> CHR ''/'') (drop 8 base) @ ref)
      else None)"

definition testHostname :: "string \<Rightarrow> string option" where
  "testHostname u =
     (if take 8 u = ''https://'' \<and> 8 < length u
      then Some (takeWhile (\<lambda>c. c \<noteq> CHR ''/'') (drop 8 u)) else None)"

definition card1 :: node where
  "card1 = Element 2 ''div'' [(''class'', ''card'')]
     [Element 3 ''h2'' [(''class'', ''title'')] [TextNode ''  Alpha ''],
      Element 4 ''a'' [(''href'', ''/item/1'')] [TextNode ''more'']]"

definition card2 :: node where
  "card2 = Element 5 ''div'' [(''class'', ''card wide'')]
     [Element 6 ''h2'' [(''class'', ''title'')] [TextNode ''Beta''],
      Element 7 ''a'' [] [TextNode ''more'']]"

definition nextAnchor :: node where
  "nextAnchor =
     Element 8 ''a'' [(''class'', ''next''), (''href'', ''/list?page=2'')] [TextNode '' Next '']"

definition body1 :: node where
  "body1 = Element 1 ''body'' []
     [card1, card2, nextAnchor,
      Element 9 ''a'' [(''class'', ''older''), (''href'', ''/gone'')] [TextNode ''Older''],
      Element 10 ''a'' [(''class'', ''broken''), (''href'', ''http://'')] [TextNode ''Broken'']]"

definition doc1 :: node where
  "doc1 = Element 0 ''html'' [] [body1]"

definition card3 :: node where
  "card3 = Element 2 ''div'' [(''class'', ''card'')]
     [Element 3 ''h2'' [(''class'', ''title'')] [TextNode ''Gamma'']]"

definition doc2 :: node where
  "doc2 = Element 0 ''html'' []
     [Element 1 ''body'' []
        [card3,
         Element 4 ''a'' [(''class'', ''prev''), (''href'', ''/list'')] [TextNode ''Previous'']]]"

definition url1 :: string where
  "url1 = ''https://x.test/list''"

definition url2 :: string where
  "url2 = ''https://x.test/list?page=2''"

definition testGoto :: "string \<Rightarrow> page option" where
  "testGoto u =
     (if u = url1 then Some \<lparr>documentElement = doc1, baseURI = url1\<rparr>
      else if u = url2 then Some \<lparr>documentElement = doc2, baseURI = url2\<rparr>
      else None)"

definition testEnv :: env where
  "testEnv = \<lparr>css = testCss, RegExp = testRegExp, URL = testURL, hostname = testHostname,
              goto = testGoto\<rparr>"

definition titleField :: fieldInfo where
  "titleField = \<lparr>ftype = ''text'', fselector = ''.title'', fmethod = Some ''css'', fattribute = []\<rparr>"

definition linkField :: fieldInfo where
  "linkField = \<lparr>ftype = ''attribute'', fselector = ''a'', fmethod = None, fattribute = ''href''\<rparr>"

text \<open>The template of the pagination examples: cards, their titles, a next link.\<close>

definition cards :: template where
  "cards = \<lparr>itemSelector = Some ''.card'', itemSelectorMethod = Some ''css'',
            tfields = Some [(''title'', titleField)],
            nextPage = Some \<lparr>nselector = ''.next'', nmethod = Some ''css''\<rparr>,
            paginationLimit = None\<rparr>"

text \<open>The page at \<open>v\<close> loads and the routine of \<^verbatim>\<open>page.evaluate\<close> returns \<open>b\<close> on it.\<close>

definition fetched :: "env \<Rightarrow> template \<Rightarrow> string \<Rightarrow> itemData list \<Rightarrow> bool" where
  "fetched e t v b =
     (case goto e v of None \<Rightarrow> False | Some pg \<Rightarrow> evaluate e (documentElement pg) t = Inr b)"

text \<open>
  The CSV files written for the templates \<open>pre\<close> whose loops ended, without an exception,
  in the states \<open>sts\<close>: one per template that collected a record.
\<close>

definition writtenFiles ::
  "string \<Rightarrow> (string \<times> template) list \<Rightarrow> crawl list \<Rightarrow> (string \<times> string \<times> itemData list) list" where
  "writtenFiles domain pre sts =
     map (\<lambda>(p, st). (domain, fst p, aggregatedData st))
       (filter (\<lambda>(p, st). aggregatedData st \<noteq> []) (zip pre sts))"

text \<open>The template \<open>p\<close> of a request at \<open>u\<close> ends in the state \<open>st\<close> without an exception.\<close>

definition completes :: "env \<Rightarrow> string \<Rightarrow> string \<times> template \<Rightarrow> crawl \<Rightarrow> bool" where
  "completes e u p st = (scrapeTemplate e (snd p) u = Some (None, st))"

section \<open>Aggregation\<close>

lemma collect_visit_simps:
  "visited (visit st u) = visited st @ [u]"
  "batches (visit st u) = batches st"
  "aggregatedData (visit st u) = aggregatedData st"
  "visited (collect st b) = visited st"
  "batches (collect st b) = batches st @ [b]"
  "aggregatedData (collect st b) = aggregatedData st @ b"
  by (simp_all add: visit_def collect_def)

lemma scrapeLoop_invariant:
  assumes "scrapeLoop e t u cur st = Some y"
  shows "aggregatedData st = concat (batches st) \<longrightarrow> list_all2 (fetched e t) (visited st) (batches st) \<longrightarrow>
         aggregatedData (snd y) = concat (batches (snd y)) \<and>
         list_all2 (fetched e t) (take (length (batches (snd y))) (visited (snd y))) (batches (snd y)) \<and>
         (fst y = None \<longrightarrow> length (batches (snd y)) = length (visited (snd y)))"
proof (rule scrapeLoop.raw_induct[OF _ assms, where P = "\<lambda>e t u cur st y.
         aggregatedData st = concat (batches st) \<longrightarrow> list_all2 (fetched e t) (visited st) (batches st) \<longrightarrow>
         aggregatedData (snd y) = concat (batches (snd y)) \<and>
         list_all2 (fetched e t) (take (length (batches (snd y))) (visited (snd y))) (batches (snd y)) \<and>
         (fst y = None \<longrightarrow> length (batches (snd y)) = length (visited (snd y)))"], goal_cases)
  case (1 f e t currentPageUrl currentPage st y)
  show ?case
  proof (intro impI)
    assume agg: "aggregatedData st = concat (batches st)"
      and all: "list_all2 (fetched e t) (visited st) (batches st)"
    have len: "length (visited st) = length (batches st)"
      using all by (rule list_all2_lengthD)
    show "aggregatedData (snd y) = concat (batches (snd y)) \<and>
         list_all2 (fetched e t) (take (length (batches (snd y))) (visited (snd y))) (batches (snd y)) \<and>
         (fst y = None \<longrightarrow> length (batches (snd y)) = length (visited (snd y)))"
    proof (cases "goto e currentPageUrl")
      case None
      with 1(2) agg all len show ?thesis
        by (auto simp: collect_visit_simps)
    next
      case (Some pg)
      note pg = this
      show ?thesis
      proof (cases "evaluate e (documentElement pg) t")
        case (Inl x)
        with 1(2) pg agg all len show ?thesis
          by (auto simp: collect_visit_simps)
      next
        case (Inr b)
        have f: "fetched e t currentPageUrl b"
          using pg Inr by (simp add: fetched_def)
        have agg': "aggregatedData (collect (visit st currentPageUrl) b) = concat (batches (collect (visit st currentPageUrl) b))"
          using agg by (simp add: collect_visit_simps)
        have all': "list_all2 (fetched e t) (visited (collect (visit st currentPageUrl) b)) (batches (collect (visit st currentPageUrl) b))"
          using all f by (simp add: collect_visit_simps list_all2_appendI)
        have len': "length (batches (collect (visit st currentPageUrl) b)) = length (visited (collect (visit st currentPageUrl) b))"
          using len by (simp add: collect_visit_simps)
        have stop: "y = (x, collect (visit st currentPageUrl) b) \<Longrightarrow> ?thesis" for x
          using agg' all' len' by simp
        show ?thesis
        proof (cases "limitReached t currentPage")
          case True
          with 1(2) pg Inr have "y = (None, collect (visit st currentPageUrl) b)" by simp
          then show ?thesis by (rule stop)
        next
          case False
          show ?thesis
          proof (cases "checkNextPage e t pg currentPageUrl")
            case (Inl x)
            with 1(2) pg \<open>evaluate e (documentElement pg) t = Inr b\<close> False
            have "y = (Some x, collect (visit st currentPageUrl) b)" by simp
            then show ?thesis by (rule stop)
          next
            case (Inr r)
            note r = this
            show ?thesis
            proof (cases r)
              case None
              with 1(2) pg \<open>evaluate e (documentElement pg) t = Inr b\<close> False r
              have "y = (None, collect (visit st currentPageUrl) b)" by simp
              then show ?thesis by (rule stop)
            next
              case (Some v)
              with 1(2) pg \<open>evaluate e (documentElement pg) t = Inr b\<close> False r
              have "f e t v (currentPage + 1) (collect (visit st currentPageUrl) b) = Some y"
                by simp
              from 1(1)[OF this] agg' all' show ?thesis by blast
            qed
          qed
        qed
      qed
    qed
  qed
qed

text \<open>
  C9. When the loop over the pages of a template ends, \<^verbatim>\<open>aggregatedData\<close> is the
  concatenation of the records of the pages, in the order the pages were fetched and with
  the order of the items of each page kept; its length is the sum of their lengths; each
  batch is what the routine returned on the page fetched at that position; and a loop that
  ends without an exception has one batch per page fetched.
\<close>

theorem crawl_result_is_concatenation:
  assumes "scrapeTemplate e t u = Some (x, st)"
  shows "aggregatedData st = concat (batches st) \<and>
         length (aggregatedData st) = sum_list (map length (batches st)) \<and>
         list_all2 (fetched e t) (take (length (batches st)) (visited st)) (batches st) \<and>
         (x = None \<longrightarrow> length (batches st) = length (visited st))"
proof -
  have run: "scrapeLoop e t u 1 \<lparr>visited = [], batches = [], aggregatedData = []\<rparr> = Some (x, st)"
    using assms by (simp add: scrapeTemplate_def)
  have inv: "aggregatedData st = concat (batches st) \<and>
         list_all2 (fetched e t) (take (length (batches st)) (visited st)) (batches st) \<and>
         (x = None \<longrightarrow> length (batches st) = length (visited st))"
    using scrapeLoop_invariant[OF run] by simp
  then have "length (aggregatedData st) = sum_list (map length (batches st))"
    by (simp add: length_concat)
  with inv show ?thesis by simp
qed

theorem crawl_result_is_concatenation_witness:
  "scrapeTemplate testEnv cards url1 =
     Some (None,
       \<lparr>visited = [url1, url2],
        batches = [[[(''title'', Str ''Alpha'')], [(''title'', Str ''Beta'')]],
                   [[(''title'', Str ''Gamma'')]]],
        aggregatedData = [[(''title'', Str ''Alpha'')], [(''title'', Str ''Beta'')],
                          [(''title'', Str ''Gamma'')]]\<rparr>) \<and>
   length [[(''title'', Str ''Alpha'')], [(''title'', Str ''Beta'')], [(''title'', Str ''Gamma'')]] =
     sum_list (map length [[[(''title'', Str ''Alpha'')], [(''title'', Str ''Beta'')]],
                           [[(''title'', Str ''Gamma'')]]])"
proof -
  have run: "scrapeTemplate testEnv cards url1 =
     Some (None,
       \<lparr>visited = [url1, url2],
        batches = [[[(''title'', Str ''Alpha'')], [(''title'', Str ''Beta'')]],
                   [[(''title'', Str ''Gamma'')]]],
        aggregatedData = [[(''title'', Str ''Alpha'')], [(''title'', Str ''Beta'')],
                          [(''title'', Str ''Gamma'')]]\<rparr>)"
    by code_simp
  from crawl_result_is_concatenation[OF run] run show ?thesis by simp
qed

section \<open>The pagination limit\<close>

lemma limitReached_iff:
  "paginationLimit t = Some l \<Longrightarrow> 0 < l \<Longrightarrow> limitReached t cur = (l \<le> cur)"
  by (simp add: limitReached_def)

lemma scrapeLoop_limit_bound:
  assumes lim: "paginationLimit t = Some l" and pos: "0 < l"
  shows "\<exists>x st'. scrapeLoop e t u cur st = Some (x, st') \<and>
           length (visited st') \<le> length (visited st) + max 1 (nat (l - cur + 1))"
proof (induction "nat (l - cur)" arbitrary: cur u st rule: less_induct)
  case less
  note lr = limitReached_iff[OF lim pos]
  show ?case
  proof (cases "goto e u")
    case None
    then show ?thesis
      by (subst scrapeLoop.simps) (simp add: collect_visit_simps)
  next
    case (Some pg)
    note pg = this
    show ?thesis
    proof (cases "evaluate e (documentElement pg) t")
      case (Inl x)
      with pg show ?thesis
        by (subst scrapeLoop.simps) (simp add: collect_visit_simps)
    next
      case (Inr b)
      note b = this
      show ?thesis
      proof (cases "l \<le> cur")
        case True
        with pg b lr show ?thesis
          by (subst scrapeLoop.simps) (simp add: collect_visit_simps)
      next
        case False
        note notyet = this
        show ?thesis
        proof (cases "checkNextPage e t pg u")
          case (Inl x)
          with pg b lr notyet show ?thesis
            by (subst scrapeLoop.simps) (simp add: collect_visit_simps)
        next
          case (Inr r)
          note r = this
          show ?thesis
          proof (cases r)
            case None
            with pg b lr notyet r show ?thesis
              by (subst scrapeLoop.simps) (simp add: collect_visit_simps)
          next
            case (Some v)
            have step: "scrapeLoop e t u cur st = scrapeLoop e t v (cur + 1) (collect (visit st u) b)"
              using pg b lr notyet r Some by (subst scrapeLoop.simps) simp
            have "nat (l - (cur + 1)) < nat (l - cur)"
              using notyet by simp
            from less[OF this, of v "collect (visit st u) b"]
            obtain x st' where res: "scrapeLoop e t v (cur + 1) (collect (visit st u) b) = Some (x, st')"
              and len: "length (visited st') \<le> length (visited (collect (visit st u) b)) + max 1 (nat (l - (cur + 1) + 1))"
              by blast
            have "length (visited st') \<le> length (visited st) + max 1 (nat (l - cur + 1))"
              using len notyet by (simp add: collect_visit_simps)
            with step res show ?thesis by simp
          qed
        qed
      qed
    qed
  qed
qed

lemma selectItems_nextPage_irrelevant:
  "selectItems e doc (t\<lparr>nextPage := np\<rparr>) = selectItems e doc t"
  by (simp add: selectItems_def)

lemma buildItem_nextPage_irrelevant:
  "buildItem e doc (t\<lparr>nextPage := np\<rparr>) = buildItem e doc t"
  by (rule ext) (simp add: buildItem_def)

lemma evaluate_nextPage_irrelevant:
  "evaluate e doc (t\<lparr>nextPage := np\<rparr>) = evaluate e doc t"
  unfolding evaluate_def selectItems_nextPage_irrelevant buildItem_nextPage_irrelevant ..

text \<open>
  C3. With \<^verbatim>\<open>paginationLimit\<close> a positive integer \<open>l\<close>, the loop over the pages of the
  template ends, and it has handed at most \<open>l\<close> URLs to \<^verbatim>\<open>page.goto\<close>. Once the page
  counter has reached \<open>l\<close>, a page that loads and is extracted is the last one: the loop
  ends there without an exception, before the check for the next page, and its result is
  the same whatever \<^verbatim>\<open>nextPage\<close> the template has.
\<close>

theorem pagination_limit_precedence:
  assumes "paginationLimit t = Some l" and "0 < l"
  shows "(\<exists>x st. scrapeTemplate e t u = Some (x, st) \<and> int (length (visited st)) \<le> l) \<and>
         (\<forall>v cur st pg b. l \<le> cur \<longrightarrow> goto e v = Some pg \<longrightarrow>
              evaluate e (documentElement pg) t = Inr b \<longrightarrow>
              scrapeLoop e t v cur st = Some (None, collect (visit st v) b)) \<and>
         (\<forall>v cur st np. l \<le> cur \<longrightarrow>
              scrapeLoop e (t\<lparr>nextPage := np\<rparr>) v cur st = scrapeLoop e t v cur st)"
proof (intro conjI allI impI)
  from scrapeLoop_limit_bound[OF assms, of e u 1 "\<lparr>visited = [], batches = [], aggregatedData = []\<rparr>"]
  obtain x st where "scrapeTemplate e t u = Some (x, st)"
    and "length (visited st) \<le> max 1 (nat l)"
    by (auto simp: scrapeTemplate_def)
  moreover have "int (max 1 (nat l)) = l" using assms(2) by simp
  ultimately show "\<exists>x st. scrapeTemplate e t u = Some (x, st) \<and> int (length (visited st)) \<le> l"
    by (metis of_nat_le_iff)
next
  fix v cur st pg b
  assume "l \<le> cur" "goto e v = Some pg" "evaluate e (documentElement pg) t = Inr b"
  then show "scrapeLoop e t v cur st = Some (None, collect (visit st v) b)"
    using limitReached_iff[OF assms] by (subst scrapeLoop.simps) simp
next
  fix v cur st np
  assume reached: "l \<le> cur"
  have lr: "limitReached t cur" using limitReached_iff[OF assms] reached by simp
  have lr': "limitReached (t\<lparr>nextPage := np\<rparr>) cur" using lr by (simp add: limitReached_def)
  show "scrapeLoop e (t\<lparr>nextPage := np\<rparr>) v cur st = scrapeLoop e t v cur st"
    by (subst scrapeLoop.simps, subst (2) scrapeLoop.simps)
       (simp add: lr lr' evaluate_nextPage_irrelevant split: option.split sum.split)
qed

theorem pagination_limit_precedence_witness:
  "(0::int) < 1 \<and>
   scrapeTemplate testEnv (cards\<lparr>paginationLimit := Some 1\<rparr>) url1 =
     Some (None,
       \<lparr>visited = [url1],
        batches = [[[(''title'', Str ''Alpha'')], [(''title'', Str ''Beta'')]]],
        aggregatedData = [[(''title'', Str ''Alpha'')], [(''title'', Str ''Beta'')]]\<rparr>) \<and>
   int (length [url1]) \<le> 1 \<and>
   (\<exists>x st. scrapeTemplate testEnv (cards\<lparr>paginationLimit := Some 1\<rparr>) url1 = Some (x, st) \<and>
      int (length (visited st)) \<le> 1)"
proof -
  have lim: "paginationLimit (cards\<lparr>paginationLimit := Some 1\<rparr>) = Some 1"
    by simp
  have pos: "(0::int) < 1"
    by simp
  have run: "scrapeTemplate testEnv (cards\<lparr>paginationLimit := Some 1\<rparr>) url1 =
     Some (None,
       \<lparr>visited = [url1],
        batches = [[[(''title'', Str ''Alpha'')], [(''title'', Str ''Beta'')]]],
        aggregatedData = [[(''title'', Str ''Alpha'')], [(''title'', Str ''Beta'')]]\<rparr>)"
    by code_simp
  from pagination_limit_precedence[OF lim pos, of testEnv url1] run pos show ?thesis
    by simp
qed

section \<open>Resolution by regular expression\<close>

lemma find_map_pair:
  "find (\<lambda>link. P (snd link)) (map (\<lambda>a. (h a, g a)) xs) =
   map_option (\<lambda>a. (h a, g a)) (find (\<lambda>a. P (g a)) xs)"
  by (induction xs) simp_all

lemma nextPageLookup_regex:
  assumes "orCss (nmethod np) = ''regex''" and "css e ''a'' = Some anchor"
    and "RegExp e (nselector np) ''i'' = Some regex"
  shows "nextPageLookup e pg np =
           (case find (\<lambda>a. regex (trim (textContent a)))
                   (filter (anchor (documentElement pg) (documentElement pg))
                      (elements (documentElement pg))) of
              None \<Rightarrow> Inr (False, Str [])
            | Some a \<Rightarrow> Inr (True, Str (hrefProperty e pg a)))"
proof -
  let ?anchors = "filter (anchor (documentElement pg) (documentElement pg))
                    (elements (documentElement pg))"
  have lookup: "nextPageLookup e pg np =
      (case find (\<lambda>link. regex (snd link))
              (map (\<lambda>a. (hrefProperty e pg a, trim (textContent a))) ?anchors) of
         None \<Rightarrow> Inr (False, Str [])
       | Some nextLink \<Rightarrow> Inr (True, Str (fst nextLink)))"
    using assms by (simp add: nextPageLookup_def document_querySelectorAll_def)
  have fm: "find (\<lambda>link. regex (snd link))
              (map (\<lambda>a. (hrefProperty e pg a, trim (textContent a))) ?anchors) =
            map_option (\<lambda>a. (hrefProperty e pg a, trim (textContent a)))
              (find (\<lambda>a. regex (trim (textContent a))) ?anchors)"
    by (rule find_map_pair[of regex "hrefProperty e pg" "\<lambda>a. trim (textContent a)"])
  show ?thesis
    unfolding lookup fm
    by (cases "find (\<lambda>a. regex (trim (textContent a))) ?anchors") simp_all
qed

text \<open>
  C8, as amended. For a selector that is a pattern, the element sought in a field with the
  method \<^verbatim>\<open>regex\<close> is the first element below the item, in document order, whose trimmed
  text passes the test of the pattern compiled with the flag \<^verbatim>\<open>i\<close> (elements that match
  later do not matter), and there is none exactly when no element below passes;
  \<^verbatim>\<open>extractText\<close> returns the trimmed text of that element, or the empty string. The link
  to the next page is sought among the anchors of the document only: it is the first
  anchor, in document order, whose trimmed text passes the test, and there is none when no
  anchor passes.
\<close>

theorem regex_first_match:
  assumes "RegExp e selector ''i'' = Some regex"
  shows "findEl e doc element selector ''regex'' =
           Inr (find (\<lambda>el. regex (trim (textContent el))) (descendants element)) \<and>
         (\<forall>el. findEl e doc element selector ''regex'' = Inr (Some el) \<longleftrightarrow>
            (\<exists>i < length (descendants element).
               descendants element ! i = el \<and> regex (trim (textContent el)) \<and>
               (\<forall>j < i. \<not> regex (trim (textContent (descendants element ! j)))))) \<and>
         (findEl e doc element selector ''regex'' = Inr None \<longleftrightarrow>
            (\<forall>el \<in> set (descendants element). \<not> regex (trim (textContent el)))) \<and>
         extractText e doc element selector ''regex'' =
           (case find (\<lambda>el. regex (trim (textContent el))) (descendants element) of
              None \<Rightarrow> [] | Some el \<Rightarrow> trim (textContent el)) \<and>
         (\<forall>np anchor. orCss (nmethod np) = ''regex'' \<and> nselector np = selector \<and>
              css e ''a'' = Some anchor \<longrightarrow>
            nextPageLookup e pg np =
              (case find (\<lambda>a. regex (trim (textContent a)))
                      (filter (anchor (documentElement pg) (documentElement pg))
                         (elements (documentElement pg))) of
                 None \<Rightarrow> Inr (False, Str [])
               | Some a \<Rightarrow> Inr (True, Str (hrefProperty e pg a))))"
proof -
  have eq: "findEl e doc element selector ''regex'' =
           Inr (find (\<lambda>el. regex (trim (textContent el))) (descendants element))"
    using assms by (simp add: findEl_def)
  have some: "findEl e doc element selector ''regex'' = Inr (Some el) \<longleftrightarrow>
            (\<exists>i < length (descendants element).
               descendants element ! i = el \<and> regex (trim (textContent el)) \<and>
               (\<forall>j < i. \<not> regex (trim (textContent (descendants element ! j)))))" for el
    unfolding eq by (auto simp: find_Some_iff)
  have none: "findEl e doc element selector ''regex'' = Inr None \<longleftrightarrow>
            (\<forall>el \<in> set (descendants element). \<not> regex (trim (textContent el)))"
    unfolding eq by (auto simp: find_None_iff)
  have etx: "extractText e doc element selector ''regex'' =
           (case find (\<lambda>el. regex (trim (textContent el))) (descendants element) of
              None \<Rightarrow> [] | Some el \<Rightarrow> trim (textContent el))"
    unfolding extractText_def eq by (simp split: option.split)
  have link: "nextPageLookup e pg np =
              (case find (\<lambda>a. regex (trim (textContent a)))
                      (filter (anchor (documentElement pg) (documentElement pg))
                         (elements (documentElement pg))) of
                 None \<Rightarrow> Inr (False, Str [])
               | Some a \<Rightarrow> Inr (True, Str (hrefProperty e pg a)))"
    if "orCss (nmethod np) = ''regex''" and "nselector np = selector" and "css e ''a'' = Some anchor"
    for np anchor
    using nextPageLookup_regex[OF that(1) that(3), of regex pg] assms that(2) by simp
  from eq some none etx link show ?thesis by blast
qed

theorem regex_first_match_witness:
  "findEl testEnv doc1 card2 ''E'' ''regex'' =
     Inr (Some (Element 6 ''h2'' [(''class'', ''title'')] [TextNode ''Beta''])) \<and>
   descendants card2 =
     [Element 6 ''h2'' [(''class'', ''title'')] [TextNode ''Beta''],
      Element 7 ''a'' [] [TextNode ''more'']] \<and>
   contains ''e'' (lowerCase (trim ''Beta'')) \<and> contains ''e'' (lowerCase (trim ''more'')) \<and>
   extractText testEnv doc1 card2 ''E'' ''regex'' = ''Beta'' \<and>
   nextPageLookup testEnv \<lparr>documentElement = doc1, baseURI = url1\<rparr>
       \<lparr>nselector = ''E'', nmethod = Some ''regex''\<rparr> = Inr (True, Str ''https://x.test/item/1'')"
proof -
  let ?pg = "\<lparr>documentElement = doc1, baseURI = url1\<rparr>"
  let ?np = "\<lparr>nselector = ''E'', nmethod = Some ''regex''\<rparr>"
  have re: "RegExp testEnv ''E'' ''i'' = Some (\<lambda>s. contains (lowerCase ''E'') (lowerCase s))"
    by (simp add: testEnv_def testRegExp_def)
  have d: "descendants card2 =
     [Element 6 ''h2'' [(''class'', ''title'')] [TextNode ''Beta''],
      Element 7 ''a'' [] [TextNode ''more'']]"
    by code_simp
  have c1: "contains ''e'' (lowerCase (trim ''Beta''))" by code_simp
  have c2: "contains ''e'' (lowerCase (trim ''more''))" by code_simp
  have f: "find (\<lambda>el. contains (lowerCase ''E'') (lowerCase (trim (textContent el)))) (descendants card2)
       = Some (Element 6 ''h2'' [(''class'', ''title'')] [TextNode ''Beta''])"
    by code_simp
  have t: "trim (textContent (Element 6 ''h2'' [(''class'', ''title'')] [TextNode ''Beta''])) = ''Beta''"
    by code_simp
  have np: "orCss (nmethod ?np) = ''regex'' \<and> nselector ?np = ''E''"
    by (simp add: orCss_def)
  have an: "css testEnv ''a'' = Some (\<lambda>doc scope el. tagName el = ''a'')"
    by (simp add: testEnv_def testCss_def)
  have lk: "(case find (\<lambda>a. contains (lowerCase ''E'') (lowerCase (trim (textContent a))))
                (filter (\<lambda>el. tagName el = ''a'') (elements (documentElement ?pg))) of
              None \<Rightarrow> Inr (False, Str [])
            | Some a \<Rightarrow> Inr (True, Str (hrefProperty testEnv ?pg a))) =
        (Inr (True, Str ''https://x.test/item/1'') :: exn + bool \<times> jsval)"
    by code_simp
  from regex_first_match[OF re, of doc1 card2 ?pg] f t d c1 c2 np an lk show ?thesis
    by simp
qed

text \<open>
  C8 as stated fails for the link to the next page. With the pattern \<^verbatim>\<open>Next\<close> on the
  first page, the first element in document order whose trimmed text matches is the root
  element (and below it the body), neither of which has an href; the handler looks at the
  anchors only, finds the link to the second page and goes on there.
\<close>

theorem next_link_regex_counterexample:
  "find (\<lambda>el. contains (lowerCase ''Next'') (lowerCase (trim (textContent el)))) (elements doc1) =
     Some doc1 \<and>
   find (\<lambda>el. contains (lowerCase ''Next'') (lowerCase (trim (textContent el)))) (descendants doc1) =
     Some body1 \<and>
   getAttribute doc1 ''href'' = Null \<and> getAttribute body1 ''href'' = Null \<and>
   find (\<lambda>a. contains (lowerCase ''Next'') (lowerCase (trim (textContent a))))
     (filter (\<lambda>el. tagName el = ''a'') (elements doc1)) = Some nextAnchor \<and>
   RegExp testEnv ''Next'' ''i'' = Some (\<lambda>s. contains (lowerCase ''Next'') (lowerCase s)) \<and>
   nextPageLookup testEnv \<lparr>documentElement = doc1, baseURI = url1\<rparr>
       \<lparr>nselector = ''Next'', nmethod = Some ''regex''\<rparr> = Inr (True, Str (hrefProperty testEnv \<lparr>documentElement = doc1, baseURI = url1\<rparr> nextAnchor)) \<and>
   hrefProperty testEnv \<lparr>documentElement = doc1, baseURI = url1\<rparr> nextAnchor = url2 \<and>
   nextAnchor \<noteq> doc1 \<and> nextAnchor \<noteq> body1 \<and>
   scrapeTemplate testEnv (cards\<lparr>nextPage := Some \<lparr>nselector = ''Next'', nmethod = Some ''regex''\<rparr>\<rparr>) url1 =
     Some (None,
       \<lparr>visited = [url1, url2],
        batches = [[[(''title'', Str ''Alpha'')], [(''title'', Str ''Beta'')]],
                   [[(''title'', Str ''Gamma'')]]],
        aggregatedData = [[(''title'', Str ''Alpha'')], [(''title'', Str ''Beta'')],
                          [(''title'', Str ''Gamma'')]]\<rparr>)"
proof -
  have re: "RegExp testEnv ''Next'' ''i'' = Some (\<lambda>s. contains (lowerCase ''Next'') (lowerCase s))"
    by (simp add: testEnv_def testRegExp_def)
  have rest: "find (\<lambda>el. contains (lowerCase ''Next'') (lowerCase (trim (textContent el)))) (elements doc1) =
     Some doc1 \<and>
   find (\<lambda>el. contains (lowerCase ''Next'') (lowerCase (trim (textContent el)))) (descendants doc1) =
     Some body1 \<and>
   getAttribute doc1 ''href'' = Null \<and> getAttribute body1 ''href'' = Null \<and>
   find (\<lambda>a. contains (lowerCase ''Next'') (lowerCase (trim (textContent a))))
     (filter (\<lambda>el. tagName el = ''a'') (elements doc1)) = Some nextAnchor \<and>
   nextPageLookup testEnv \<lparr>documentElement = doc1, baseURI = url1\<rparr>
       \<lparr>nselector = ''Next'', nmethod = Some ''regex''\<rparr> = Inr (True, Str (hrefProperty testEnv \<lparr>documentElement = doc1, baseURI = url1\<rparr> nextAnchor)) \<and>
   hrefProperty testEnv \<lparr>documentElement = doc1, baseURI = url1\<rparr> nextAnchor = url2 \<and>
   nextAnchor \<noteq> doc1 \<and> nextAnchor \<noteq> body1 \<and>
   scrapeTemplate testEnv (cards\<lparr>nextPage := Some \<lparr>nselector = ''Next'', nmethod = Some ''regex''\<rparr>\<rparr>) url1 =
     Some (None,
       \<lparr>visited = [url1, url2],
        batches = [[[(''title'', Str ''Alpha'')], [(''title'', Str ''Beta'')]],
                   [[(''title'', Str ''Gamma'')]]],
        aggregatedData = [[(''title'', Str ''Alpha'')], [(''title'', Str ''Beta'')],
                          [(''title'', Str ''Gamma'')]]\<rparr>)"
    by code_simp
  from re rest show ?thesis by simp
qed

section \<open>Resolution by class name\<close>

lemma first_of_filter:
  "(case filter P xs of [] \<Rightarrow> Inr None | el # rest \<Rightarrow> Inr (Some el)) = Inr (find P xs)"
  by (induction xs) simp_all

lemma carries_single: "carries [c] el = (c \<in> set (classList el))"
  by (simp add: carries_def)

text \<open>
  C5. For a selector that names one class (after the first dot is removed), the item
  selection with the method \<^verbatim>\<open>class\<close> is every element of the whole document that carries
  the class, in document order: it asks the document and has no root to be scoped to. The
  same selector in a field is resolved below the item only: the element found is the first
  one below the item that carries the class, and \<^verbatim>\<open>extractText\<close> returns its trimmed text.
\<close>

theorem className_scope:
  assumes "tokens (remove1 CHR ''.'' selector) = [c]"
  shows "(orCss (itemSelectorMethod t) = ''class'' \<and> itemSelector t = Some selector \<longrightarrow>
            selectItems e doc t =
              Inr (HTMLCollection (filter (\<lambda>el. c \<in> set (classList el)) (elements doc)))) \<and>
         findEl e doc element selector ''class'' =
           Inr (find (\<lambda>el. c \<in> set (classList el)) (descendants element)) \<and>
         (\<forall>el. findEl e doc element selector ''class'' = Inr (Some el) \<longrightarrow>
            el \<in> set (descendants element) \<and> c \<in> set (classList el)) \<and>
         extractText e doc element selector ''class'' =
           (case find (\<lambda>el. c \<in> set (classList el)) (descendants element) of
              None \<Rightarrow> [] | Some el \<Rightarrow> trim (textContent el))"
proof -
  have car: "carries [c] = (\<lambda>el. c \<in> set (classList el))"
    by (rule ext) (rule carries_single)
  have items: "selectItems e doc t =
      Inr (HTMLCollection (filter (\<lambda>el. c \<in> set (classList el)) (elements doc)))"
    if "orCss (itemSelectorMethod t) = ''class''" and "itemSelector t = Some selector"
    using that assms by (simp add: selectItems_def document_getElementsByClassName_def car)
  have single: "findEl e doc element selector ''class'' =
      Inr (find (\<lambda>el. c \<in> set (classList el)) (descendants element))"
    using assms by (simp add: findEl_def getElementsByClassName_def car first_of_filter)
  have inside: "el \<in> set (descendants element) \<and> c \<in> set (classList el)"
    if "findEl e doc element selector ''class'' = Inr (Some el)" for el
    using that unfolding single by (auto simp: find_Some_iff)
  have etx: "extractText e doc element selector ''class'' =
      (case find (\<lambda>el. c \<in> set (classList el)) (descendants element) of
         None \<Rightarrow> [] | Some el \<Rightarrow> trim (textContent el))"
    unfolding extractText_def single by (simp split: option.split)
  from items single inside etx show ?thesis by blast
qed

theorem className_scope_witness:
  "tokens (remove1 CHR ''.'' ''.title'') = [''title''] \<and>
   selectItems testEnv doc1 (cards\<lparr>itemSelector := Some ''.title'', itemSelectorMethod := Some ''class''\<rparr>) =
     Inr (HTMLCollection
       [Element 3 ''h2'' [(''class'', ''title'')] [TextNode ''  Alpha ''],
        Element 6 ''h2'' [(''class'', ''title'')] [TextNode ''Beta'']]) \<and>
   findEl testEnv doc1 card2 ''.title'' ''class'' =
     Inr (Some (Element 6 ''h2'' [(''class'', ''title'')] [TextNode ''Beta''])) \<and>
   Element 3 ''h2'' [(''class'', ''title'')] [TextNode ''  Alpha ''] \<notin> set (descendants card2)"
proof -
  have tk: "tokens (remove1 CHR ''.'' ''.title'') = [''title'']"
    by code_simp
  have m: "orCss (itemSelectorMethod (cards\<lparr>itemSelector := Some ''.title'', itemSelectorMethod := Some ''class''\<rparr>)) = ''class'' \<and>
      itemSelector (cards\<lparr>itemSelector := Some ''.title'', itemSelectorMethod := Some ''class''\<rparr>) = Some ''.title''"
    by (simp add: orCss_def)
  have els: "filter (\<lambda>el. ''title'' \<in> set (classList el)) (elements doc1) =
       [Element 3 ''h2'' [(''class'', ''title'')] [TextNode ''  Alpha ''],
        Element 6 ''h2'' [(''class'', ''title'')] [TextNode ''Beta'']]"
    by code_simp
  have fnd: "find (\<lambda>el. ''title'' \<in> set (classList el)) (descendants card2) =
       Some (Element 6 ''h2'' [(''class'', ''title'')] [TextNode ''Beta''])"
    by code_simp
  have out: "Element 3 ''h2'' [(''class'', ''title'')] [TextNode ''  Alpha ''] \<notin> set (descendants card2)"
    by code_simp
  from className_scope[OF tk, of "cards\<lparr>itemSelector := Some ''.title'', itemSelectorMethod := Some ''class''\<rparr>" testEnv doc1 card2]
    tk m els fnd out
  show ?thesis by simp
qed

section \<open>Unknown methods\<close>

lemma findEl_unknown_method:
  assumes "m \<notin> set [''css'', ''class'', ''id'', ''regex'']"
  shows "findEl e doc element selector m = Inr None"
  using assms by (simp add: findEl_def)

lemma orCss_nonempty: "m \<noteq> [] \<Longrightarrow> orCss (Some m) = m"
  by (simp add: orCss_def)

text \<open>
  C10, as amended. A method that is a string other than \<^verbatim>\<open>css\<close>, \<^verbatim>\<open>class\<close>, \<^verbatim>\<open>id\<close> and
  \<^verbatim>\<open>regex\<close>, and not the empty string, resolves to no element and raises nothing: a field
  that uses it has the value \<^verbatim>\<open>''\<close>, an item selection that uses it gives no record, and
  the loop goes on from that page, with an empty batch, to the check of the limit and of
  the next page.
\<close>

theorem unknown_method_yields_nothing:
  assumes "m \<noteq> []" and "m \<notin> set [''css'', ''class'', ''id'', ''regex'']"
  shows "extractText e doc item selector (orCss (Some m)) = [] \<and>
         extractAttribute e doc item selector attribute (orCss (Some m)) = Str [] \<and>
         (fmethod f = Some m \<longrightarrow> fieldValue e doc item f = Str []) \<and>
         (itemSelectorMethod t = Some m \<longrightarrow>
            selectItems e doc t = Inr (Array []) \<and> evaluate e doc t = Inr []) \<and>
         (itemSelectorMethod t = Some m \<longrightarrow> goto e u = Some pg \<longrightarrow>
            scrapeLoop e t u cur st =
              (if limitReached t cur then Some (None, collect (visit st u) [])
               else (case checkNextPage e t pg u of
                       Inl x \<Rightarrow> Some (Some x, collect (visit st u) [])
                     | Inr None \<Rightarrow> Some (None, collect (visit st u) [])
                     | Inr (Some v) \<Rightarrow> scrapeLoop e t v (cur + 1) (collect (visit st u) []))))"
proof -
  note oc = orCss_nonempty[OF assms(1)]
  note fe = findEl_unknown_method[OF assms(2)]
  have tx: "extractText e doc item selector (orCss (Some m)) = []" for selector
    by (simp add: extractText_def oc fe)
  have at: "extractAttribute e doc item selector attribute (orCss (Some m)) = Str []" for selector attribute
    by (simp add: extractAttribute_def oc fe)
  have fv: "fieldValue e doc item f = Str []" if "fmethod f = Some m"
    using that tx at by (simp add: fieldValue_def)
  have sel: "selectItems e doc t = Inr (Array [])" if "itemSelectorMethod t = Some m" for doc
    using that assms(2) by (simp add: selectItems_def oc)
  have ev: "evaluate e doc t = Inr []" if "itemSelectorMethod t = Some m" for doc
    using sel[OF that] by (simp add: evaluate_def)
  have loop: "scrapeLoop e t u cur st =
              (if limitReached t cur then Some (None, collect (visit st u) [])
               else (case checkNextPage e t pg u of
                       Inl x \<Rightarrow> Some (Some x, collect (visit st u) [])
                     | Inr None \<Rightarrow> Some (None, collect (visit st u) [])
                     | Inr (Some v) \<Rightarrow> scrapeLoop e t v (cur + 1) (collect (visit st u) [])))"
    if "itemSelectorMethod t = Some m" and "goto e u = Some pg"
    using that(2) ev[OF that(1)] by (subst scrapeLoop.simps) simp
  from tx at fv sel ev loop show ?thesis by blast
qed

text \<open>
  C10 as stated fails at the empty string, a string outside the four names: \<^verbatim>\<open>m || 'css'\<close>
  turns it into \<^verbatim>\<open>css\<close>, so the field is extracted and the items are selected.
\<close>

theorem empty_method_counterexample:
  "[] \<notin> set [''css'', ''class'', ''id'', ''regex''] \<and>
   fieldValue testEnv doc1 card1 (titleField\<lparr>fmethod := Some []\<rparr>) = Str ''Alpha'' \<and>
   evaluate testEnv doc1 (cards\<lparr>itemSelectorMethod := Some []\<rparr>) =
     Inr [[(''title'', Str ''Alpha'')], [(''title'', Str ''Beta'')]]"
  by code_simp

theorem unknown_method_yields_nothing_witness:
  "''xpath'' \<noteq> [] \<and> ''xpath'' \<notin> set [''css'', ''class'', ''id'', ''regex''] \<and>
   fieldValue testEnv doc1 card1 (titleField\<lparr>fmethod := Some ''xpath''\<rparr>) = Str [] \<and>
   evaluate testEnv doc1 (cards\<lparr>itemSelectorMethod := Some ''xpath''\<rparr>) = Inr [] \<and>
   extractText testEnv doc1 card1 ''.title'' (orCss (Some ''xpath'')) = []"
proof -
  have a: "''xpath'' \<noteq> []" by simp
  have b: "''xpath'' \<notin> set [''css'', ''class'', ''id'', ''regex'']" by simp
  have f: "fmethod (titleField\<lparr>fmethod := Some ''xpath''\<rparr>) = Some ''xpath''" by simp
  have i: "itemSelectorMethod (cards\<lparr>itemSelectorMethod := Some ''xpath''\<rparr>) = Some ''xpath''" by simp
  from unknown_method_yields_nothing[OF a b, of testEnv doc1 card1 "''.title''" "[]"
      "titleField\<lparr>fmethod := Some ''xpath''\<rparr>" "cards\<lparr>itemSelectorMethod := Some ''xpath''\<rparr>"]
    a b f i
  show ?thesis by simp
qed

section \<open>Field extraction and the shape of a record\<close>

text \<open>
  What holds of the two extraction functions: they return a value on every input (an
  exception of the query is caught), and an element that is not found gives \<^verbatim>\<open>''\<close>.
\<close>

lemma extractText_degrades:
  "extractText e doc element selector method = [] \<or>
   (\<exists>el. findEl e doc element selector method = Inr (Some el) \<and>
         extractText e doc element selector method = trim (textContent el))"
  by (simp add: extractText_def split: sum.split option.split)

lemma extractAttribute_unresolved:
  "findEl e doc element selector method = Inr None \<or> findEl e doc element selector method = Inl x \<Longrightarrow>
   extractAttribute e doc element selector attribute method = Str []"
  by (auto simp: extractAttribute_def)

lemma extractAttribute_resolved:
  "findEl e doc element selector method = Inr (Some el) \<Longrightarrow>
   extractAttribute e doc element selector attribute method = getAttribute el attribute"
  by (simp add: extractAttribute_def)

lemma getAttribute_absent:
  "map_of as (lowerCase a) = None \<Longrightarrow> getAttribute (Element i tg as cs) a = Null"
  by (simp add: getAttribute_def)

text \<open>
  C1 fails on the code at an element that is found and lacks the attribute:
  \<^verbatim>\<open>el.getAttribute(attribute)\<close> is \<^verbatim>\<open>null\<close> there and \<^verbatim>\<open>extractAttribute\<close> returns it as it
  is, where its two other ways out return \<^verbatim>\<open>''\<close>. The second card has an anchor without
  \<^verbatim>\<open>href\<close>, and no image at all.
\<close>

theorem extractAttribute_absent_attribute_is_null:
  "findEl testEnv doc1 card2 ''a'' ''css'' = Inr (Some (Element 7 ''a'' [] [TextNode ''more''])) \<and>
   getAttribute (Element 7 ''a'' [] [TextNode ''more'']) ''href'' = Null \<and>
   extractAttribute testEnv doc1 card2 ''a'' ''href'' ''css'' = Null \<and>
   extractAttribute testEnv doc1 card2 ''img'' ''src'' ''css'' = Str []"
  by code_simp

text \<open>
  The keys of a record are the names of the fields of the template, in their order (for
  field names that are distinct, as the keys of an object are).
\<close>

lemma setProp_new:
  "k \<notin> fst ` set ps \<Longrightarrow> setProp ps k v = ps @ [(k, v)]"
  by (induction ps) auto

lemma buildItem_fold_keys:
  "distinct (map fst acc @ map fst fs) \<Longrightarrow>
   map fst (foldl (\<lambda>itemData (field, fieldInfo). setProp itemData field (g fieldInfo)) acc fs) =
     map fst acc @ map fst fs"
proof (induction fs arbitrary: acc)
  case Nil
  then show ?case by simp
next
  case (Cons p fs)
  obtain field fieldInfo where p: "p = (field, fieldInfo)" by (cases p)
  have new: "field \<notin> fst ` set acc" using Cons.prems p by auto
  have d: "distinct (map fst (acc @ [(field, g fieldInfo)]) @ map fst fs)"
    using Cons.prems p by auto
  show ?case
    using Cons.IH[OF d] by (simp add: p setProp_new[OF new])
qed

lemma buildItem_keys:
  assumes "tfields t = Some fs" and "distinct (map fst fs)"
  shows "map fst (buildItem e doc t item) = map fst fs"
  using buildItem_fold_keys[of "[]" fs "fieldValue e doc item"] assms
  by (simp add: buildItem_def)

lemma evaluate_keys:
  assumes "evaluate e doc t = Inr b" and "tfields t = Some fs" and "distinct (map fst fs)"
  shows "list_all (\<lambda>itemData. map fst itemData = map fst fs) b"
  using assms
  by (auto simp: evaluate_def list_all_iff buildItem_keys split: sum.splits collection.splits)

text \<open>
  C2 fails on the code for the same reason as C1: the record has its keys, but the value of
  a field of type \<^verbatim>\<open>attribute\<close> is \<^verbatim>\<open>null\<close> when the element lacks the attribute.
\<close>

theorem record_value_is_null:
  "evaluate testEnv doc1 (cards\<lparr>tfields := Some [(''title'', titleField), (''link'', linkField)]\<rparr>) =
     Inr [[(''title'', Str ''Alpha''), (''link'', Str ''/item/1'')],
          [(''title'', Str ''Beta''), (''link'', Null)]]"
  by code_simp

text \<open>
  An item selection by class never gives a record: \<^verbatim>\<open>items.forEach\<close> is called on the
  \<^verbatim>\<open>HTMLCollection\<close> (or \<^verbatim>\<open>replace\<close> on a missing selector), and raises.
\<close>

lemma class_items_raise:
  "orCss (itemSelectorMethod t) = ''class'' \<Longrightarrow> evaluate e doc t = Inl TypeError"
  by (simp add: evaluate_def selectItems_def split: option.split)

section \<open>The check for the next page\<close>

lemma scrapeLoop_at_next_check:
  assumes "goto e u = Some pg" and "evaluate e (documentElement pg) t = Inr b"
    and "\<not> limitReached t cur"
  shows "scrapeLoop e t u cur st =
           (case checkNextPage e t pg u of
              Inl x \<Rightarrow> Some (Some x, collect (visit st u) b)
            | Inr None \<Rightarrow> Some (None, collect (visit st u) b)
            | Inr (Some v) \<Rightarrow> scrapeLoop e t v (cur + 1) (collect (visit st u) b))"
  using assms by (subst scrapeLoop.simps) simp

text \<open>
  C4, as amended. On a page that loaded and was extracted, and where the limit has not
  ended the loop: without \<^verbatim>\<open>nextPage\<close> (or with an empty selector), or when the selector
  finds no element, or when the element found gives no href (null or empty), the loop ends
  after this page without an exception. Otherwise the href found is resolved against
  \<^verbatim>\<open>currentPageUrl\<close>: when that gives a URL, the loop goes on there with the page counter
  one higher; when \<^verbatim>\<open>new URL\<close> raises, the loop ends with that exception.
\<close>

theorem next_link_check:
  assumes "goto e u = Some pg" and "evaluate e (documentElement pg) t = Inr b"
    and "\<not> limitReached t cur"
  shows "(nextPage t = None \<longrightarrow> scrapeLoop e t u cur st = Some (None, collect (visit st u) b)) \<and>
         (\<forall>np. nextPage t = Some np \<longrightarrow>
            (nselector np = [] \<longrightarrow>
               scrapeLoop e t u cur st = Some (None, collect (visit st u) b)) \<and>
            (\<forall>h. nextPageLookup e pg np = Inr (False, h) \<longrightarrow>
               scrapeLoop e t u cur st = Some (None, collect (visit st u) b)) \<and>
            (nextPageLookup e pg np = Inr (True, Null) \<or> nextPageLookup e pg np = Inr (True, Str []) \<longrightarrow>
               scrapeLoop e t u cur st = Some (None, collect (visit st u) b)) \<and>
            (\<forall>h v. nselector np \<noteq> [] \<and> nextPageLookup e pg np = Inr (True, Str h) \<and> h \<noteq> [] \<and>
                   URL e h u = Some v \<longrightarrow>
               scrapeLoop e t u cur st = scrapeLoop e t v (cur + 1) (collect (visit st u) b)) \<and>
            (\<forall>h. nselector np \<noteq> [] \<and> nextPageLookup e pg np = Inr (True, Str h) \<and> h \<noteq> [] \<and>
                 URL e h u = None \<longrightarrow>
               scrapeLoop e t u cur st = Some (Some TypeError, collect (visit st u) b)))"
proof -
  note loop = scrapeLoop_at_next_check[OF assms, of st]
  have absent: "scrapeLoop e t u cur st = Some (None, collect (visit st u) b)"
    if "nextPage t = None"
    using that by (simp add: loop checkNextPage_def)
  have empty: "scrapeLoop e t u cur st = Some (None, collect (visit st u) b)"
    if "nextPage t = Some np" and "nselector np = []" for np
    using that by (simp add: loop checkNextPage_def)
  have nonode: "scrapeLoop e t u cur st = Some (None, collect (visit st u) b)"
    if "nextPage t = Some np" and "nextPageLookup e pg np = Inr (False, h)" for np h
    using that by (simp add: loop checkNextPage_def split: jsval.split)
  have nohref: "scrapeLoop e t u cur st = Some (None, collect (visit st u) b)"
    if "nextPage t = Some np"
      and "nextPageLookup e pg np = Inr (True, Null) \<or> nextPageLookup e pg np = Inr (True, Str [])" for np
    using that by (auto simp: loop checkNextPage_def)
  have continue: "scrapeLoop e t u cur st = scrapeLoop e t v (cur + 1) (collect (visit st u) b)"
    if "nextPage t = Some np" and "nselector np \<noteq> []"
      and "nextPageLookup e pg np = Inr (True, Str h)" and "h \<noteq> []" and "URL e h u = Some v" for np h v
    using that by (simp add: loop checkNextPage_def)
  have raise: "scrapeLoop e t u cur st = Some (Some TypeError, collect (visit st u) b)"
    if "nextPage t = Some np" and "nselector np \<noteq> []"
      and "nextPageLookup e pg np = Inr (True, Str h)" and "h \<noteq> []" and "URL e h u = None" for np h
    using that by (simp add: loop checkNextPage_def)
  from absent empty nonode nohref continue raise show ?thesis by blast
qed

text \<open>
  C4 as stated fails where the link is found and has an href that is not a URL: the first
  page has \<^verbatim>\<open><a class="broken" href="http://">\<close>, \<^verbatim>\<open>new URL('http://', base)\<close> raises, and
  the loop ends with a TypeError instead of going on.
\<close>

theorem unresolvable_href_counterexample:
  "nextPageLookup testEnv \<lparr>documentElement = doc1, baseURI = url1\<rparr>
       \<lparr>nselector = ''.broken'', nmethod = Some ''css''\<rparr> = Inr (True, Str ''http://'') \<and>
   URL testEnv ''http://'' url1 = None \<and>
   scrapeTemplate testEnv (cards\<lparr>nextPage := Some \<lparr>nselector = ''.broken'', nmethod = Some ''css''\<rparr>\<rparr>) url1 =
     Some (Some TypeError,
       \<lparr>visited = [url1],
        batches = [[[(''title'', Str ''Alpha'')], [(''title'', Str ''Beta'')]]],
        aggregatedData = [[(''title'', Str ''Alpha'')], [(''title'', Str ''Beta'')]]\<rparr>)"
  by code_simp

theorem next_link_check_witness:
  "goto testEnv url1 = Some \<lparr>documentElement = doc1, baseURI = url1\<rparr> \<and>
   evaluate testEnv doc1 cards = Inr [[(''title'', Str ''Alpha'')], [(''title'', Str ''Beta'')]] \<and>
   \<not> limitReached cards 1 \<and>
   nextPageLookup testEnv \<lparr>documentElement = doc1, baseURI = url1\<rparr>
       \<lparr>nselector = ''.next'', nmethod = Some ''css''\<rparr> = Inr (True, Str ''/list?page=2'') \<and>
   URL testEnv ''/list?page=2'' url1 = Some url2 \<and>
   scrapeLoop testEnv cards url1 1 \<lparr>visited = [], batches = [], aggregatedData = []\<rparr> =
     scrapeLoop testEnv cards url2 (1 + 1)
       (collect (visit \<lparr>visited = [], batches = [], aggregatedData = []\<rparr> url1)
          [[(''title'', Str ''Alpha'')], [(''title'', Str ''Beta'')]])"
proof -
  have g: "goto testEnv url1 = Some \<lparr>documentElement = doc1, baseURI = url1\<rparr>"
    by code_simp
  have ev: "evaluate testEnv (documentElement \<lparr>documentElement = doc1, baseURI = url1\<rparr>) cards =
      Inr [[(''title'', Str ''Alpha'')], [(''title'', Str ''Beta'')]]"
    by code_simp
  have lr: "\<not> limitReached cards 1"
    by code_simp
  have np: "nextPage cards = Some \<lparr>nselector = ''.next'', nmethod = Some ''css''\<rparr>"
    by (simp add: cards_def)
  have lk: "nextPageLookup testEnv \<lparr>documentElement = doc1, baseURI = url1\<rparr>
       \<lparr>nselector = ''.next'', nmethod = Some ''css''\<rparr> = Inr (True, Str ''/list?page=2'')"
    by code_simp
  have rs: "URL testEnv ''/list?page=2'' url1 = Some url2"
    by code_simp
  from next_link_check[OF g ev lr, of "\<lparr>visited = [], batches = [], aggregatedData = []\<rparr>"] np lk rs
  have "scrapeLoop testEnv cards url1 1 \<lparr>visited = [], batches = [], aggregatedData = []\<rparr> =
     scrapeLoop testEnv cards url2 (1 + 1)
       (collect (visit \<lparr>visited = [], batches = [], aggregatedData = []\<rparr> url1)
          [[(''title'', Str ''Alpha'')], [(''title'', Str ''Beta'')]])"
    by simp
  with g ev lr lk rs show ?thesis by simp
qed

section \<open>Validation of a request\<close>

lemma scrapeTemplates_response:
  "scrapeTemplates e u d ts out = Some r \<Longrightarrow> response r = ScrapingCompleted \<or> response r = ScrapingFailed"
proof (induction ts arbitrary: out)
  case Nil
  then show ?case by auto
next
  case (Cons p ts)
  obtain n t where p: "p = (n, t)" by (cases p)
  show ?case
  proof (cases "scrapeTemplate e t u")
    case None
    with Cons.prems p show ?thesis by simp
  next
    case (Some y)
    obtain x st where y: "y = (x, st)" by (cases y)
    show ?thesis
    proof (cases x)
      case None
      with Cons.prems p Some y Cons.IH show ?thesis by auto
    next
      case (Some ex)
      with Cons.prems p \<open>scrapeTemplate e t u = Some y\<close> y show ?thesis by auto
    qed
  qed
qed

text \<open>
  C7, as amended. The handler validates the request, not its templates: a request without
  \<^verbatim>\<open>url\<close> (or with an empty one) or without \<^verbatim>\<open>templates\<close> is answered 400
  \<^verbatim>\<open>URL and templates are required.\<close> before any navigation and with nothing written; that
  answer differs from the 500 \<^verbatim>\<open>Scraping failed.\<close> of a failed navigation; and a request
  that has both is never answered 400, whatever its templates lack.
\<close>

theorem request_validation:
  "(url req = None \<or> url req = Some [] \<or> templates req = None \<longrightarrow>
      scrape e req = Some \<lparr>response = UrlAndTemplatesRequired, files = [], navigations = []\<rparr>) \<and>
   (\<forall>u ts r. url req = Some u \<and> u \<noteq> [] \<and> templates req = Some ts \<and> scrape e req = Some r \<longrightarrow>
      response r \<noteq> UrlAndTemplatesRequired) \<and>
   UrlAndTemplatesRequired \<noteq> ScrapingFailed"
proof -
  have missing: "scrape e req = Some \<lparr>response = UrlAndTemplatesRequired, files = [], navigations = []\<rparr>"
    if "url req = None \<or> url req = Some [] \<or> templates req = None"
    using that by (auto simp: scrape_def split: option.split)
  have present: "response r \<noteq> UrlAndTemplatesRequired"
    if "url req = Some u" and "u \<noteq> []" and "templates req = Some ts" and "scrape e req = Some r"
    for u ts r
  proof (cases "hostname e u")
    case None
    with that show ?thesis by (auto simp: scrape_def)
  next
    case (Some h)
    with that have "scrapeTemplates e u (normalizeDomain h) ts
        \<lparr>response = ScrapingCompleted, files = [], navigations = []\<rparr> = Some r"
      by (simp add: scrape_def)
    from scrapeTemplates_response[OF this] show ?thesis by auto
  qed
  from missing present show ?thesis by blast
qed

theorem request_validation_witness:
  "scrape testEnv \<lparr>url = None, templates = Some [(''cards'', cards)]\<rparr> =
     Some \<lparr>response = UrlAndTemplatesRequired, files = [], navigations = []\<rparr> \<and>
   scrape testEnv \<lparr>url = Some url1, templates = None\<rparr> =
     Some \<lparr>response = UrlAndTemplatesRequired, files = [], navigations = []\<rparr>"
proof -
  have a: "url \<lparr>url = None, templates = Some [(''cards'', cards)]\<rparr> = None" by simp
  have b: "templates \<lparr>url = Some url1, templates = None\<rparr> = None" by simp
  from request_validation[of "\<lparr>url = None, templates = Some [(''cards'', cards)]\<rparr>" testEnv]
       request_validation[of "\<lparr>url = Some url1, templates = None\<rparr>" testEnv] a b
  show ?thesis by simp
qed

text \<open>
  C7 as stated fails: a template without \<^verbatim>\<open>itemSelector\<close> and \<^verbatim>\<open>fields\<close>, and one without
  \<^verbatim>\<open>fields\<close> only, are both crawled (the start URL is navigated to) and the request
  succeeds.
\<close>

theorem template_not_validated_counterexample:
  "scrape testEnv
     \<lparr>url = Some url1,
      templates = Some [(''bare'', \<lparr>itemSelector = None, itemSelectorMethod = None, tfields = None,
                                   nextPage = None, paginationLimit = None\<rparr>)]\<rparr> =
     Some \<lparr>response = ScrapingCompleted, files = [], navigations = [url1]\<rparr> \<and>
   scrape testEnv
     \<lparr>url = Some url1,
      templates = Some [(''nofields'', \<lparr>itemSelector = Some ''.card'', itemSelectorMethod = None,
                                       tfields = None, nextPage = None, paginationLimit = None\<rparr>)]\<rparr> =
     Some \<lparr>response = ScrapingCompleted, files = [(''x.test'', ''nofields'', [[], []])],
           navigations = [url1]\<rparr>"
  by code_simp

section \<open>A navigation that fails\<close>

text \<open>The exception \<open>NavigationError\<close> comes from \<^verbatim>\<open>page.goto\<close> and from nowhere else.\<close>

lemma document_querySelectorAll_exn:
  "document_querySelectorAll e doc sel = Inl x \<Longrightarrow> x = SyntaxError"
  by (auto simp: document_querySelectorAll_def split: option.splits)

lemma document_querySelector_exn:
  "document_querySelector e doc sel = Inl x \<Longrightarrow> x = SyntaxError"
  by (auto simp: document_querySelector_def split: option.splits)

lemma selectItems_exn:
  "selectItems e doc t = Inl x \<Longrightarrow> x \<noteq> NavigationError"
  by (auto simp: selectItems_def split: if_splits option.splits sum.splits
           dest: document_querySelectorAll_exn document_querySelector_exn)

lemma evaluate_exn:
  "evaluate e doc t = Inl x \<Longrightarrow> x \<noteq> NavigationError"
  by (auto simp: evaluate_def split: sum.splits collection.splits dest: selectItems_exn)

lemma existsAndHref_exn:
  "existsAndHref e pg sel = Inl x \<Longrightarrow> x = SyntaxError"
  by (auto simp: existsAndHref_def split: sum.splits option.splits dest: document_querySelector_exn)

lemma nextPageLookup_exn:
  "nextPageLookup e pg np = Inl x \<Longrightarrow> x = SyntaxError"
  by (auto simp: nextPageLookup_def split: if_splits sum.splits option.splits
           dest: existsAndHref_exn document_querySelectorAll_exn)

lemma checkNextPage_exn:
  "checkNextPage e t pg u = Inl x \<Longrightarrow> x \<noteq> NavigationError"
  by (auto simp: checkNextPage_def split: if_splits sum.splits option.splits jsval.splits prod.splits
           dest: nextPageLookup_exn)

lemma scrapeLoop_navigation_error:
  assumes "scrapeLoop e t u cur st = Some y"
  shows "fst y = Some NavigationError \<longrightarrow>
         visited (snd y) \<noteq> [] \<and> goto e (last (visited (snd y))) = None"
proof (rule scrapeLoop.raw_induct[OF _ assms, where P = "\<lambda>e t u cur st y.
         fst y = Some NavigationError \<longrightarrow>
         visited (snd y) \<noteq> [] \<and> goto e (last (visited (snd y))) = None"], goal_cases)
  case (1 f e t u cur st y)
  show ?case
  proof (cases "goto e u")
    case None
    with 1(2) show ?thesis by (auto simp: collect_visit_simps)
  next
    case (Some pg)
    note pg = this
    show ?thesis
    proof (cases "evaluate e (documentElement pg) t")
      case (Inl x)
      with 1(2) pg evaluate_exn[OF Inl] show ?thesis by auto
    next
      case (Inr b)
      note b = this
      show ?thesis
      proof (cases "limitReached t cur")
        case True
        with 1(2) pg b show ?thesis by auto
      next
        case False
        show ?thesis
        proof (cases "checkNextPage e t pg u")
          case (Inl x)
          with 1(2) pg b False checkNextPage_exn[OF Inl] show ?thesis by auto
        next
          case (Inr r)
          show ?thesis
          proof (cases r)
            case None
            with 1(2) pg b False Inr show ?thesis by auto
          next
            case (Some v)
            with 1(2) pg b False Inr
            have "f e t v (cur + 1) (collect (visit st u) b) = Some y" by simp
            from 1(1)[OF this] show ?thesis .
          qed
        qed
      qed
    qed
  qed
qed

lemma writtenFiles_Cons:
  "writtenFiles d ((n, t) # pre) (st # sts) =
     (if aggregatedData st \<noteq> [] then [(d, n, aggregatedData st)] else []) @ writtenFiles d pre sts"
  by (simp add: writtenFiles_def)

lemma scrapeTemplates_completed_prefix:
  assumes "list_all2 (completes e u) pre sts"
  shows "scrapeTemplates e u d (pre @ rest) out =
         scrapeTemplates e u d rest
           (out\<lparr>files := files out @ writtenFiles d pre sts,
                navigations := navigations out @ concat (map visited sts)\<rparr>)"
  using assms
proof (induction pre sts arbitrary: out rule: list_all2_induct)
  case Nil
  then show ?case by (simp add: writtenFiles_def)
next
  case (Cons p pre st sts)
  obtain n t where p: "p = (n, t)" by (cases p)
  have run: "scrapeTemplate e t u = Some (None, st)"
    using Cons.hyps(1) p by (simp add: completes_def)
  show ?case
    by (simp add: p run Cons.IH writtenFiles_Cons)
qed

text \<open>
  C6, as amended. When the templates before the \<open>N\<close>-th have ended without an exception
  and a page fails to load in the loop of the \<open>N\<close>-th, the request is answered once, 500
  \<^verbatim>\<open>Scraping failed.\<close>; no file is written for the \<open>N\<close>-th template or a later one, and no
  later template is started; but the files of the earlier templates that collected a
  record were written when each of them ended, and they remain.
\<close>

theorem navigation_failure_outcome:
  assumes "url req = Some u" and "u \<noteq> []" and "hostname e u = Some h"
    and "templates req = Some (pre @ (n, t) # post)"
    and "list_all2 (completes e u) pre sts"
    and "scrapeTemplate e t u = Some (Some NavigationError, st)"
  shows "scrape e req =
           Some \<lparr>response = ScrapingFailed,
                 files = writtenFiles (normalizeDomain h) pre sts,
                 navigations = concat (map visited sts) @ visited st\<rparr> \<and>
         visited st \<noteq> [] \<and> goto e (last (visited st)) = None"
proof -
  have failed: "visited st \<noteq> [] \<and> goto e (last (visited st)) = None"
    using scrapeLoop_navigation_error[of e t u 1 _ "(Some NavigationError, st)"] assms(6)
    by (simp add: scrapeTemplate_def)
  have "scrape e req =
      scrapeTemplates e u (normalizeDomain h) (pre @ (n, t) # post)
        \<lparr>response = ScrapingCompleted, files = [], navigations = []\<rparr>"
    using assms(1-4) by (simp add: scrape_def)
  also have "\<dots> = scrapeTemplates e u (normalizeDomain h) ((n, t) # post)
        \<lparr>response = ScrapingCompleted, files = writtenFiles (normalizeDomain h) pre sts,
          navigations = concat (map visited sts)\<rparr>"
    by (simp add: scrapeTemplates_completed_prefix[OF assms(5)])
  also have "\<dots> = Some \<lparr>response = ScrapingFailed,
                 files = writtenFiles (normalizeDomain h) pre sts,
                 navigations = concat (map visited sts) @ visited st\<rparr>"
    by (simp add: assms(6))
  finally show ?thesis using failed by simp
qed

text \<open>
  C6 as stated fails: the first template ends with two records and its file is written;
  the second follows a link to a page that does not load; the request fails and the file
  of the first template is there.
\<close>

theorem earlier_files_persist_counterexample:
  "goto testEnv ''https://x.test/gone'' = None \<and>
   scrape testEnv
     \<lparr>url = Some url1,
      templates = Some [(''first'', cards\<lparr>nextPage := None\<rparr>),
                        (''second'', cards\<lparr>nextPage := Some \<lparr>nselector = ''.older'', nmethod = None\<rparr>\<rparr>)]\<rparr> =
     Some \<lparr>response = ScrapingFailed,
           files = [(''x.test'', ''first'', [[(''title'', Str ''Alpha'')], [(''title'', Str ''Beta'')]])],
           navigations = [url1, url1, ''https://x.test/gone'']\<rparr>"
  by code_simp

theorem navigation_failure_outcome_witness:
  "scrape testEnv
     \<lparr>url = Some url1,
      templates = Some ([(''first'', cards\<lparr>nextPage := None\<rparr>)] @
                        (''second'', cards\<lparr>nextPage := Some \<lparr>nselector = ''.older'', nmethod = None\<rparr>\<rparr>) #
                        [(''third'', cards)])\<rparr> =
     Some \<lparr>response = ScrapingFailed,
           files = [(''x.test'', ''first'', [[(''title'', Str ''Alpha'')], [(''title'', Str ''Beta'')]])],
           navigations = [url1, url1, ''https://x.test/gone'']\<rparr> \<and>
   goto testEnv ''https://x.test/gone'' = None"
proof -
  let ?b = "[[(''title'', Str ''Alpha'')], [(''title'', Str ''Beta'')]]"
  let ?st1 = "\<lparr>visited = [url1], batches = [?b], aggregatedData = ?b\<rparr>"
  let ?st2 = "\<lparr>visited = [url1, ''https://x.test/gone''], batches = [?b], aggregatedData = ?b\<rparr>"
  let ?req = "\<lparr>url = Some url1,
      templates = Some ([(''first'', cards\<lparr>nextPage := None\<rparr>)] @
                        (''second'', cards\<lparr>nextPage := Some \<lparr>nselector = ''.older'', nmethod = None\<rparr>\<rparr>) #
                        [(''third'', cards)])\<rparr>"
  have u: "url ?req = Some url1" by simp
  have ne: "url1 \<noteq> []" by (simp add: url1_def)
  have h: "hostname testEnv url1 = Some ''x.test''" by code_simp
  have ts: "templates ?req = Some ([(''first'', cards\<lparr>nextPage := None\<rparr>)] @
                        (''second'', cards\<lparr>nextPage := Some \<lparr>nselector = ''.older'', nmethod = None\<rparr>\<rparr>) #
                        [(''third'', cards)])" by simp
  have r1: "scrapeTemplate testEnv (cards\<lparr>nextPage := None\<rparr>) url1 = Some (None, ?st1)"
    by code_simp
  have c: "list_all2 (completes testEnv url1) [(''first'', cards\<lparr>nextPage := None\<rparr>)] [?st1]"
    using r1 by (simp add: completes_def)
  have r2: "scrapeTemplate testEnv (cards\<lparr>nextPage := Some \<lparr>nselector = ''.older'', nmethod = None\<rparr>\<rparr>) url1 =
      Some (Some NavigationError, ?st2)"
    by code_simp
  have w: "writtenFiles (normalizeDomain ''x.test'') [(''first'', cards\<lparr>nextPage := None\<rparr>)] [?st1] =
      [(''x.test'', ''first'', ?b)]"
    by (simp add: writtenFiles_def normalizeDomain_def)
  from navigation_failure_outcome[OF u ne h ts c r2] w show ?thesis by simp
qed

end
